theory Spec2Isabelle
  imports Main "HOL-Library.Word" "HOL-Library.Sublist"
begin

section \<open>Strings and numbers of the program\<close>

text \<open>
  A JavaScript string is a sequence of 16-bit code units; \<open>split('')\<close>, \<open>charCodeAt\<close>,
  the regular expressions without the \<open>u\<close> flag and \<open>trim\<close> all work on code units.
  The numbers the program computes with (seeds, book identifiers, character sums) are
  non-negative integers, which a JavaScript number holds exactly below \<open>2 ^ 53\<close>; they are
  naturals here. The paragraph budget and the times are integers.
\<close>

type_synonym jschar = "16 word"
type_synonym jsstring = "jschar list"

definition js :: "string \<Rightarrow> jsstring" where
  "js s = map of_char s"

abbreviation LF :: jschar where "LF \<equiv> 0x000A"
abbreviation CR :: jschar where "CR \<equiv> 0x000D"

text \<open>The result of \<open>%\<close> is \<open>NaN\<close> when the divisor is zero.\<close>

datatype number = Num nat | NaN

record config =
  gutenberg_maxId :: nat
  gutenberg_excludes :: "nat list"
  gutenberg_startId :: nat
  paragraphLimit :: int

section \<open>Checksum, clamping and the rate limit\<close>

definition clampBookId :: "config \<Rightarrow> nat \<Rightarrow> number" where
  "clampBookId cfg n =
     (if gutenberg_maxId cfg = 0 then NaN else Num (n mod gutenberg_maxId cfg))"

text \<open>
  \<open>getNextIndex\<close>: \<open>paragraph.split('')\<close> yields the code units one by one and
  \<open>forEach\<close> adds \<open>char.charCodeAt(0)\<close> to the running \<open>nextIndex\<close>, from left to right.
\<close>

definition addCharCode :: "nat \<Rightarrow> jschar \<Rightarrow> nat" where
  "addCharCode nextIndex char = nextIndex + unat char"

definition getNextIndex :: "jsstring \<Rightarrow> nat" where
  "getNextIndex paragraph = foldl addCharCode 0 paragraph"

text \<open>
  How a string holds characters: a code point up to \<open>0xFFFF\<close> is one code unit, a
  larger one is a pair of surrogates (the UTF-16 encoding of ECMAScript, which is what
  \<open>String.fromCodePoint\<close> builds).
\<close>

definition utf16Encoding :: "nat \<Rightarrow> jsstring" where
  "utf16Encoding cp =
     (if cp \<le> 0xFFFF then [of_nat cp]
      else [of_nat ((cp - 0x10000) div 0x400 + 0xD800),
            of_nat ((cp - 0x10000) mod 0x400 + 0xDC00)])"

definition fromCodePoint :: "nat list \<Rightarrow> jsstring" where
  "fromCodePoint cps = concat (map utf16Encoding cps)"

datatype error =
    RateLimitUnavailableError
  | DialectError number
  | IllegibleError number
  | BookNotFoundError number
  | RepoNotFoundError number
  | ClientError jsstring

text \<open>
  The constructors stand for the \<open>Error\<close> objects of the source, told apart by their
  message: \<open>Rate limit probably reached\<close>, \<open>Book id is written in an unfamiliar dialect\<close>,
  \<open>Book id seems to be illegible\<close>, \<open>Book id should be around here somewhere...\<close>,
  \<open>Book id seems to be missing from the library\<close>; \<open>ClientError\<close> is an \<open>err\<close> handed
  over by the GitHub client.
\<close>

record headers =
  x_ratelimit_remaining :: int
  x_ratelimit_reset :: int

text \<open>
  \<open>getRateTimeout\<close> reads the clock through \<open>Date.now()\<close>; the time is a parameter.
  \<open>Inl\<close> is the exception thrown when \<open>headers\<close> is missing. The line written to the log
  in the waiting branch is not part of the returned value.
\<close>

definition getRateTimeout :: "int \<Rightarrow> headers option \<Rightarrow> error + int" where
  "getRateTimeout now hs =
     (case hs of
        None \<Rightarrow> Inl RateLimitUnavailableError
      | Some h \<Rightarrow>
          if x_ratelimit_remaining h < 1
          then (let timeout = x_ratelimit_reset h * 1000 - now in Inr timeout)
          else Inr 0)"

section \<open>Regular expressions\<close>

text \<open>
  The patterns of the source are kept as syntax trees and run by a backtracking matcher
  that returns every way a pattern can match at a position, in the order in which
  JavaScript tries them; the first entry is the match JavaScript reports.
\<close>

definition isLineTerminator :: "jschar \<Rightarrow> bool" where
  "isLineTerminator c = (c = 0x000A \<or> c = 0x000D \<or> c = 0x2028 \<or> c = 0x2029)"

definition isWhiteSpace :: "jschar \<Rightarrow> bool" where
  "isWhiteSpace c =
     (c = 0x0009 \<or> c = 0x000B \<or> c = 0x000C \<or> c = 0x0020 \<or> c = 0x00A0 \<or> c = 0x1680
      \<or> (0x2000 \<le> c \<and> c \<le> 0x200A) \<or> c = 0x202F \<or> c = 0x205F \<or> c = 0x3000
      \<or> c = 0xFEFF)"

text \<open>The class \<open>\s\<close>, which is also what \<open>trim\<close> removes.\<close>

definition isSpace :: "jschar \<Rightarrow> bool" where
  "isSpace c = (isWhiteSpace c \<or> isLineTerminator c)"

text \<open>
  Case folding of the \<open>i\<close> flag. Every pattern character of the source is ASCII, and a
  code unit outside ASCII never folds to an ASCII one, so folding the ASCII letters decides
  every comparison the source's patterns make.
\<close>

definition canonicalize :: "jschar \<Rightarrow> jschar" where
  "canonicalize c = (if 0x0061 \<le> c \<and> c \<le> 0x007A then c - 0x0020 else c)"

record flags =
  ignoreCase :: bool
  multiline :: bool

datatype atom = Chr jschar | Space | Dot | AnyChar

datatype regex =
    Atom atom
  | Eps
  | Seq regex regex
  | Alt regex regex
  | Star regex
  | Lazy regex
  | Bol
  | Eol

fun accepts :: "flags \<Rightarrow> atom \<Rightarrow> jschar \<Rightarrow> bool" where
  "accepts f (Chr c) x = (if ignoreCase f then canonicalize x = canonicalize c else x = c)"
| "accepts f Space x = isSpace x"
| "accepts f Dot x = (\<not> isLineTerminator x)"
| "accepts f AnyChar x = True"

text \<open>
  A cursor is the code unit before the position (none at the start of the input) and the
  input that remains. \<open>Star\<close> is the greedy \<open>*\<close>, \<open>Lazy\<close> is \<open>*?\<close>; an iteration that
  consumes nothing is not taken. \<open>Bol\<close> is \<open>^\<close> and \<open>Eol\<close> is \<open>$\<close>.
\<close>

type_synonym cursor = "jschar option \<times> jsstring"

function rx_match :: "flags \<Rightarrow> regex \<Rightarrow> cursor \<Rightarrow> cursor list" where
  "rx_match f (Atom a) (p, xs) =
     (case xs of [] \<Rightarrow> [] | x # xs' \<Rightarrow> if accepts f a x then [(Some x, xs')] else [])"
| "rx_match f Eps cu = [cu]"
| "rx_match f (Seq r s) cu = concat (map (rx_match f s) (rx_match f r cu))"
| "rx_match f (Alt r s) cu = rx_match f r cu @ rx_match f s cu"
| "rx_match f (Star r) cu =
     concat (map (\<lambda>cu'. if length (snd cu') < length (snd cu)
                         then rx_match f (Star r) cu' else [])
                 (rx_match f r cu)) @ [cu]"
| "rx_match f (Lazy r) cu =
     cu # concat (map (\<lambda>cu'. if length (snd cu') < length (snd cu)
                              then rx_match f (Lazy r) cu' else [])
                      (rx_match f r cu))"
| "rx_match f Bol (p, xs) =
     (case p of
        None \<Rightarrow> [(p, xs)]
      | Some c \<Rightarrow> if multiline f \<and> isLineTerminator c then [(p, xs)] else [])"
| "rx_match f Eol (p, xs) =
     (case xs of
        [] \<Rightarrow> [(p, xs)]
      | x # _ \<Rightarrow> if multiline f \<and> isLineTerminator x then [(p, xs)] else [])"
  by pat_completeness auto
termination
  by (relation "measures [\<lambda>(f, r, cu). size r, \<lambda>(f, r, cu). length (snd cu)]") auto

fun chars :: "jsstring \<Rightarrow> regex" where
  "chars [] = Eps"
| "chars [c] = Atom (Chr c)"
| "chars (c # cs) = Seq (Atom (Chr c)) (chars cs)"

definition lit :: "string \<Rightarrow> regex" where
  "lit s = chars (js s)"

fun seqs :: "regex list \<Rightarrow> regex" where
  "seqs [] = Eps"
| "seqs [r] = r"
| "seqs (r # rs) = Seq r (seqs rs)"

definition plus :: "regex \<Rightarrow> regex" where
  "plus r = Seq r (Star r)"

definition lazy_plus :: "regex \<Rightarrow> regex" where
  "lazy_plus r = Seq r (Lazy r)"

definition opt :: "regex \<Rightarrow> regex" where
  "opt r = Alt r Eps"

definition at_least_two :: "regex \<Rightarrow> regex" where
  "at_least_two r = Seq r (Seq r (Star r))"

text \<open>
  \<open>exec\<close>: the first position, from the left, at which the pattern matches. The result is
  the text before the match, the matched text and the text after it.
\<close>

fun rx_exec ::
  "flags \<Rightarrow> regex \<Rightarrow> jsstring \<Rightarrow> cursor \<Rightarrow> (jsstring \<times> jsstring \<times> jsstring) option" where
  "rx_exec f r pre (p, []) =
     (case rx_match f r (p, []) of
        [] \<Rightarrow> None
      | (p', rest) # _ \<Rightarrow> Some (rev pre, [], rest))"
| "rx_exec f r pre (p, x # xs) =
     (case rx_match f r (p, x # xs) of
        [] \<Rightarrow> rx_exec f r (x # pre) (Some x, xs)
      | (p', rest) # _ \<Rightarrow> Some (rev pre, take (Suc (length xs) - length rest) (x # xs), rest))"

definition exec :: "flags \<Rightarrow> regex \<Rightarrow> jsstring \<Rightarrow> (jsstring \<times> jsstring \<times> jsstring) option" where
  "exec f r s = rx_exec f r [] (None, s)"

text \<open>\<open>s.replace(r, rep)\<close> for a pattern without the \<open>g\<close> flag: the first match only.\<close>

definition replace :: "flags \<Rightarrow> regex \<Rightarrow> jsstring \<Rightarrow> jsstring \<Rightarrow> jsstring" where
  "replace f r rep s =
     (case exec f r s of None \<Rightarrow> s | Some (pre, m, rest) \<Rightarrow> pre @ rep @ rest)"

text \<open>
  \<open>s.replace(r, rep)\<close> for a pattern with the \<open>g\<close> flag: every match from left to right;
  after an empty match the search moves on by one code unit.
\<close>

function rx_replace_all :: "flags \<Rightarrow> regex \<Rightarrow> jsstring \<Rightarrow> cursor \<Rightarrow> jsstring" where
  "rx_replace_all f r rep (p, []) =
     (case rx_match f r (p, []) of [] \<Rightarrow> [] | _ # _ \<Rightarrow> rep)"
| "rx_replace_all f r rep (p, x # xs) =
     (case rx_match f r (p, x # xs) of
        [] \<Rightarrow> x # rx_replace_all f r rep (Some x, xs)
      | (p', rest) # _ \<Rightarrow>
          if length rest < Suc (length xs)
          then rep @ rx_replace_all f r rep (p', rest)
          else rep @ x # rx_replace_all f r rep (Some x, xs))"
  by pat_completeness auto
termination
  by (relation "measure (\<lambda>(f, r, rep, cu). length (snd cu))") auto

definition replace_all :: "flags \<Rightarrow> regex \<Rightarrow> jsstring \<Rightarrow> jsstring \<Rightarrow> jsstring" where
  "replace_all f r rep s = rx_replace_all f r rep (None, s)"

text \<open>
  \<open>s.split(r)\<close>. \<open>acc\<close> holds, reversed, the text since the end of the last separator.
  A separator match that ends where the current piece began is skipped; the text after
  the last separator is always a piece. The empty string splits into itself unless the
  pattern matches it.
\<close>

function rx_split :: "flags \<Rightarrow> regex \<Rightarrow> jsstring \<Rightarrow> cursor \<Rightarrow> jsstring list" where
  "rx_split f r acc (p, []) = [rev acc]"
| "rx_split f r acc (p, x # xs) =
     (case rx_match f r (p, x # xs) of
        [] \<Rightarrow> rx_split f r (x # acc) (Some x, xs)
      | (p', rest) # _ \<Rightarrow>
          if length rest < Suc (length xs)
          then rev acc # rx_split f r [] (p', rest)
          else if acc = [] then rx_split f r [x] (Some x, xs)
          else rev acc # rx_split f r [x] (Some x, xs))"
  by pat_completeness auto
termination
  by (relation "measure (\<lambda>(f, r, acc, cu). length (snd cu))") auto

definition split :: "flags \<Rightarrow> regex \<Rightarrow> jsstring \<Rightarrow> jsstring list" where
  "split f r s =
     (if s = [] then (if rx_match f r (None, []) = [] then [[]] else [])
      else rx_split f r [] (None, s))"

definition trim :: "jsstring \<Rightarrow> jsstring" where
  "trim s = rev (dropWhile isSpace (rev (dropWhile isSpace s)))"

definition no_flags :: flags where
  "no_flags = \<lparr>ignoreCase = False, multiline = False\<rparr>"

definition flag_i :: flags where
  "flag_i = \<lparr>ignoreCase = True, multiline = False\<rparr>"

definition flag_m :: flags where
  "flag_m = \<lparr>ignoreCase = False, multiline = True\<rparr>"

section \<open>Reading a book\<close>

text \<open>
  What the program takes from the JavaScript platform and from the \<open>iconv\<close> package:
  \<open>String.prototype.toLowerCase\<close>, \<open>new Buffer(content, encoding)\<close>, \<open>Buffer.toString\<close>
  without and with a character set, and the conversion to UTF-8 by \<open>iconv\<close> followed by
  \<open>toString\<close>. \<open>None\<close> is an exception.
\<close>

type_synonym bytes = "8 word list"

record platform =
  toLowerCase :: "jsstring \<Rightarrow> jsstring"
  newBuffer :: "jsstring \<Rightarrow> jsstring \<Rightarrow> bytes"
  bufferToString :: "bytes \<Rightarrow> jsstring"
  bufferToStringAs :: "bytes \<Rightarrow> jsstring \<Rightarrow> jsstring option"
  iconvConvert :: "jsstring \<Rightarrow> bytes \<Rightarrow> jsstring option"

text \<open>\<open>toLowerCase\<close> on the letters of ASCII, for running the model on ASCII text.\<close>

definition asciiLowerCase :: "jsstring \<Rightarrow> jsstring" where
  "asciiLowerCase s = map (\<lambda>c. if 0x0041 \<le> c \<and> c \<le> 0x005A then c + 0x0020 else c) s"

text \<open>\<open>/Character set encoding: (.*?)$/m\<close> and \<open>/Language: (.*?)$/m\<close>.\<close>

definition encoding_label :: string where
  "encoding_label = ''Character set encoding: ''"

definition language_label :: string where
  "language_label = ''Language: ''"

definition rx_encoding :: regex where
  "rx_encoding = seqs [lit encoding_label, Lazy (Atom Dot), Eol]"

definition rx_language :: regex where
  "rx_language = seqs [lit language_label, Lazy (Atom Dot), Eol]"

text \<open>
  The group \<open>(.*?)\<close> begins where the label ends and ends where the match ends, so
  \<open>match[1]\<close> is the matched text without the label.
\<close>

definition getBookEncoding :: "platform \<Rightarrow> jsstring \<Rightarrow> jsstring" where
  "getBookEncoding pf text =
     (case exec flag_m rx_encoding text of
        None \<Rightarrow> js ''ascii''
      | Some (pre, m, rest) \<Rightarrow> toLowerCase pf (drop (length encoding_label) m))"

definition getBookLanguage :: "platform \<Rightarrow> jsstring \<Rightarrow> jsstring" where
  "getBookLanguage pf text =
     (case exec flag_m rx_language text of
        None \<Rightarrow> js ''english''
      | Some (pre, m, rest) \<Rightarrow> toLowerCase pf (drop (length language_label) m))"

text \<open>
  The three patterns of \<open>stripGutenbergBoilerplate\<close>, all with the \<open>i\<close> flag:
  \<^verbatim>\<open>^[\s\S]*start\s+of\s+(th(is|e)\s+)?project\s+gutenberg.*?[\*]+\<close>,
  \<^verbatim>\<open>[\*]*\s*end\s+of\s+(th(is|e)\s+)?project\s+gutenberg[\s\S]*$\<close> and
  \<^verbatim>\<open>^\s*produced\s+by[\s\S]+?(\r\n){2,}\<close>.
\<close>

definition rx_this_or_the :: regex where
  "rx_this_or_the = opt (seqs [lit ''th'', Alt (lit ''is'') (lit ''e''), plus (Atom Space)])"

definition rx_header :: regex where
  "rx_header =
     seqs [Bol, Star (Atom AnyChar), lit ''start'', plus (Atom Space), lit ''of'',
           plus (Atom Space), rx_this_or_the, lit ''project'', plus (Atom Space),
           lit ''gutenberg'', Lazy (Atom Dot), plus (Atom (Chr 0x002A))]"

definition rx_footer :: regex where
  "rx_footer =
     seqs [Star (Atom (Chr 0x002A)), Star (Atom Space), lit ''end'', plus (Atom Space),
           lit ''of'', plus (Atom Space), rx_this_or_the, lit ''project'', plus (Atom Space),
           lit ''gutenberg'', Star (Atom AnyChar), Eol]"

definition rx_produced_by :: regex where
  "rx_produced_by =
     seqs [Bol, Star (Atom Space), lit ''produced'', plus (Atom Space), lit ''by'',
           lazy_plus (Atom AnyChar), at_least_two (chars [CR, LF])]"

definition stripGutenbergBoilerplate :: "jsstring \<Rightarrow> jsstring" where
  "stripGutenbergBoilerplate text =
     (let output = replace flag_i rx_header [] text;
          output = replace flag_i rx_footer [] output;
          output = replace flag_i rx_produced_by [] output;
          output = trim output
      in output)"

text \<open>
  The replacements made on the stripped text: \<open>/_/g\<close> and \<open>/\+/g\<close> by nothing,
  \<open>/\r\n/g\<close> by a line feed.
\<close>

definition fixText :: "jsstring \<Rightarrow> jsstring" where
  "fixText strippedText =
     replace_all no_flags (chars [CR, LF]) [LF]
       (replace_all no_flags (Atom (Chr 0x002B)) []
         (replace_all no_flags (Atom (Chr 0x005F)) [] strippedText))"

section \<open>The corpus on GitHub\<close>

text \<open>
  A call of the GitHub client ends in \<open>callback(err, data, headers)\<close>: either an error,
  or the data with the response headers, which may be missing. One value of \<open>github\<close>
  is what the service answers during one step of the engine, with the clock.
\<close>

datatype 'a reply = Failure error | Reply 'a "headers option"

record repo_item =
  name :: jsstring
  full_name :: jsstring

record tree_file =
  path :: jsstring
  sha :: jsstring

record blob_data =
  content :: jsstring
  encoding :: jsstring

record github =
  search_repos :: "jsstring \<Rightarrow> repo_item list reply"
  repo_tree :: "jsstring \<Rightarrow> jsstring \<Rightarrow> tree_file list reply"
  repo_blob :: "jsstring \<Rightarrow> jsstring \<Rightarrow> blob_data reply"
  date_now :: int

text \<open>
  What reaches the engine: an exception that nobody catches, \<open>callback(err)\<close>, or
  \<open>callback(null, text)\<close>.
\<close>

datatype fetched = Thrown error | Failed error | Fetched jsstring

text \<open>
  A number inside a template literal: \<open>NaN\<close>, or the decimal digits, which is what
  JavaScript prints for an integer below \<open>10 ^ 21\<close>.
\<close>

fun digits :: "nat \<Rightarrow> jsstring" where
  "digits n = (if n < 10 then [of_nat (48 + n)] else digits (n div 10) @ [of_nat (48 + n mod 10)])"

fun toString :: "number \<Rightarrow> jsstring" where
  "toString (Num n) = digits n"
| "toString NaN = js ''NaN''"

definition getGutenbergBookFromBlob ::
  "platform \<Rightarrow> github \<Rightarrow> jsstring \<Rightarrow> jsstring \<Rightarrow> number \<Rightarrow> fetched" where
  "getGutenbergBookFromBlob pf gh repo blobSha n =
     (case repo_blob gh repo blobSha of
        Failure err \<Rightarrow> Failed err
      | Reply data hs \<Rightarrow>
          (case getRateTimeout (date_now gh) hs of
             Inl e \<Rightarrow> Thrown e
           | Inr timeout \<Rightarrow>
               (let fullTextBuffer = newBuffer pf (content data) (encoding data);
                    fullText = bufferToString pf fullTextBuffer
                in if getBookLanguage pf fullText \<noteq> js ''english''
                   then Failed (DialectError n)
                   else
                     (let charset = getBookEncoding pf fullText
                      in case (case bufferToStringAs pf fullTextBuffer charset of
                                 Some decodedText \<Rightarrow> Some decodedText
                               | None \<Rightarrow> iconvConvert pf charset fullTextBuffer) of
                           None \<Rightarrow> Failed (IllegibleError n)
                         | Some decodedText \<Rightarrow>
                             (let strippedText = stripGutenbergBoilerplate decodedText;
                                  fixedText = fixText strippedText
                              in Fetched fixedText)))))"

definition findFile :: "tree_file list \<Rightarrow> jsstring \<Rightarrow> tree_file option" where
  "findFile tree p = find (\<lambda>file. path file = p) tree"

definition getGutenbergBookFromRepo ::
  "platform \<Rightarrow> github \<Rightarrow> jsstring \<Rightarrow> number \<Rightarrow> fetched" where
  "getGutenbergBookFromRepo pf gh repoName n =
     (case repo_tree gh repoName (js ''master'') of
        Failure err \<Rightarrow> Failed err
      | Reply tree hs \<Rightarrow>
          (let result = findFile tree (toString n @ js ''.txt'');
               result = (if result = None then findFile tree (toString n @ js ''-8.txt'')
                         else result);
               result = (if result = None then findFile tree (toString n @ js ''-0.txt'')
                         else result)
           in case result of
                None \<Rightarrow> Failed (BookNotFoundError n)
              | Some file \<Rightarrow>
                  (case getRateTimeout (date_now gh) hs of
                     Inl e \<Rightarrow> Thrown e
                   | Inr timeout \<Rightarrow> getGutenbergBookFromBlob pf gh repoName (sha file) n)))"

text \<open>The pattern built by \<open>new RegExp(`.*_${id}$`)\<close>.\<close>

definition rx_repo_name :: "number \<Rightarrow> regex" where
  "rx_repo_name n = seqs [Star (Atom Dot), Atom (Chr 0x005F), chars (toString n), Eol]"

definition getGutenbergBook :: "platform \<Rightarrow> github \<Rightarrow> number \<Rightarrow> fetched" where
  "getGutenbergBook pf gh n =
     (case search_repos gh (js ''_'' @ toString n @ js ''+user:GITenberg'') of
        Failure err \<Rightarrow> Failed err
      | Reply items hs \<Rightarrow>
          (let result = find (\<lambda>repo. exec no_flags (rx_repo_name n) (name repo) \<noteq> None) items
           in case getRateTimeout (date_now gh) hs of
                Inl e \<Rightarrow> Thrown e
              | Inr timeout \<Rightarrow>
                  (case result of
                     None \<Rightarrow> Failed (RepoNotFoundError n)
                   | Some repo \<Rightarrow> getGutenbergBookFromRepo pf gh (full_name repo) n)))"

section \<open>Paragraph selection\<close>

text \<open>The separator \<open>/\n{2,}/\<close>.\<close>

definition rx_blank_lines :: regex where
  "rx_blank_lines = at_least_two (Atom (Chr LF))"

text \<open>
  \<open>getParagraph\<close>. With no element to select, \<open>index % 0\<close> is \<open>NaN\<close>, the array read is
  \<open>undefined\<close> and the template prints that word.
\<close>

definition getParagraph :: "jsstring \<Rightarrow> nat \<Rightarrow> jsstring" where
  "getParagraph text index =
     (let paragraphs = split no_flags rx_blank_lines text in
      (if paragraphs = [] then js ''undefined''
       else paragraphs ! (index mod length paragraphs)) @ [LF, LF])"

section \<open>The engine\<close>

text \<open>
  The arguments that \<open>addParagraph\<close> passes on from call to call, with everything written
  to the \<open>book\<close> stream so far (one entry per \<open>write\<close>) and the lines logged at level
  \<open>info\<close>.
\<close>

datatype log_entry = Forbidden number | Message error | Transcribing number

record state =
  index :: nat
  count :: int
  cache :: "nat set"
  book :: "jsstring list"
  info :: "log_entry list"

definition trySimilarParagraph :: "state \<Rightarrow> state" where
  "trySimilarParagraph st =
     (let extraText = [LF]
      in st\<lparr>book := book st @ [extraText], index := index st + getNextIndex extraText\<rparr>)"

definition excluded :: "config \<Rightarrow> number \<Rightarrow> bool" where
  "excluded cfg bookId =
     (case bookId of NaN \<Rightarrow> False | Num n \<Rightarrow> n \<in> set (gutenberg_excludes cfg))"

text \<open>
  One call of \<open>addParagraph\<close>, up to the call that follows it: the run is over
  (\<open>callback()\<close>), an exception leaves the program, or \<open>addParagraph\<close> is called again with
  the new arguments.
\<close>

datatype outcome = Finished state | Crashed error state | Continue state

definition addParagraph_step :: "config \<Rightarrow> platform \<Rightarrow> github \<Rightarrow> state \<Rightarrow> outcome" where
  "addParagraph_step cfg pf gh st =
     (if count st < 1 then Finished st
      else if index st \<in> cache st then Continue (trySimilarParagraph st)
      else
        (let bookId = clampBookId cfg (index st)
         in if excluded cfg bookId
            then Continue (trySimilarParagraph (st\<lparr>info := info st @ [Forbidden bookId]\<rparr>))
            else
              (case getGutenbergBook pf gh bookId of
                 Thrown e \<Rightarrow> Crashed e st
               | Failed err \<Rightarrow>
                   Continue (trySimilarParagraph (st\<lparr>info := info st @ [Message err]\<rparr>))
               | Fetched result \<Rightarrow>
                   (let paragraph = getParagraph result (index st);
                        nextIndex = getNextIndex paragraph
                    in Continue
                         (st\<lparr>info := info st @ [Transcribing bookId],
                             book := book st @ [paragraph],
                             cache := insert (index st) (cache st),
                             index := nextIndex,
                             count := count st - 1\<rparr>)))))"

text \<open>
  The run: \<open>addParagraph\<close> calls itself until the budget is used up, and nothing bounds
  the number of calls. The list holds what GitHub answers in each call; when it is used
  up before the run is over, the result is the state reached.
\<close>

fun addParagraph :: "config \<Rightarrow> platform \<Rightarrow> github list \<Rightarrow> state \<Rightarrow> outcome" where
  "addParagraph cfg pf [] st = (if count st < 1 then Finished st else Continue st)"
| "addParagraph cfg pf (gh # ghs) st =
     (case addParagraph_step cfg pf gh st of
        Continue st' \<Rightarrow> addParagraph cfg pf ghs st'
      | Finished st' \<Rightarrow> Finished st'
      | Crashed e st' \<Rightarrow> Crashed e st')"

definition createBook :: "config \<Rightarrow> platform \<Rightarrow> github list \<Rightarrow> outcome" where
  "createBook cfg pf ghs =
     addParagraph cfg pf ghs
       \<lparr>index = gutenberg_startId cfg, count = paragraphLimit cfg, cache = {},
        book = [], info = []\<rparr>"

text \<open>
  The retry path: the budget is not used up, and the seed is in the cache, or its book is
  excluded, or fetching the book ended in \<open>callback(err)\<close>.
\<close>

definition retries :: "config \<Rightarrow> platform \<Rightarrow> github \<Rightarrow> state \<Rightarrow> bool" where
  "retries cfg pf gh st =
     (\<not> count st < 1 \<and>
      (index st \<in> cache st \<or> excluded cfg (clampBookId cfg (index st)) \<or>
       (case getGutenbergBook pf gh (clampBookId cfg (index st)) of
          Failed err \<Rightarrow> True | _ \<Rightarrow> False)))"

definition transcribed :: "state \<Rightarrow> nat" where
  "transcribed st = length (filter (\<lambda>e. case e of Transcribing b \<Rightarrow> True | _ \<Rightarrow> False) (info st))"

fun state_of :: "outcome \<Rightarrow> state" where
  "state_of (Finished st) = st"
| "state_of (Crashed e st) = st"
| "state_of (Continue st) = st"

section \<open>Sample inputs\<close>

text \<open>
  A platform for ASCII text with one byte per character, on which only \<open>ascii\<close> is a
  known character set; a catalogue of a hundred books of which book 42 is excluded; and
  a GitHub with six repositories: book 7 can be read, the repository of book 8 holds no
  text file, book 9 is in French, book 10 declares a character set nobody knows, the
  answer for book 11 comes without headers, and book 13 declares its language with a
  label in lower case.
\<close>

definition sample_platform :: platform where
  "sample_platform =
     \<lparr>toLowerCase = asciiLowerCase,
      newBuffer = (\<lambda>content encoding. map ucast content),
      bufferToString = map ucast,
      bufferToStringAs =
        (\<lambda>buffer charset. if charset = js ''ascii'' then Some (map ucast buffer) else None),
      iconvConvert = (\<lambda>charset buffer. None)\<rparr>"

definition sample_config :: config where
  "sample_config =
     \<lparr>gutenberg_maxId = 100, gutenberg_excludes = [42], gutenberg_startId = 42,
      paragraphLimit = 2\<rparr>"

definition sample_headers :: "headers option" where
  "sample_headers = Some \<lparr>x_ratelimit_remaining = 59, x_ratelimit_reset = 1\<rparr>"

definition sample_github :: github where
  "sample_github =
     \<lparr>search_repos = (\<lambda>q. Reply
        [\<lparr>name = js ''A_7'', full_name = js ''G/A_7''\<rparr>,
         \<lparr>name = js ''B_8'', full_name = js ''G/B_8''\<rparr>,
         \<lparr>name = js ''C_9'', full_name = js ''G/C_9''\<rparr>,
         \<lparr>name = js ''D_10'', full_name = js ''G/D_10''\<rparr>,
         \<lparr>name = js ''E_11'', full_name = js ''G/E_11''\<rparr>,
         \<lparr>name = js ''F_13'', full_name = js ''G/F_13''\<rparr>] sample_headers),
      repo_tree = (\<lambda>repoName branch.
        if repoName = js ''G/A_7''
        then Reply [\<lparr>path = js ''7.txt'', sha = js ''a''\<rparr>] sample_headers
        else if repoName = js ''G/B_8''
        then Reply [\<lparr>path = js ''README'', sha = js ''b''\<rparr>] sample_headers
        else if repoName = js ''G/C_9''
        then Reply [\<lparr>path = js ''9-8.txt'', sha = js ''c''\<rparr>] sample_headers
        else if repoName = js ''G/D_10''
        then Reply [\<lparr>path = js ''10-0.txt'', sha = js ''d''\<rparr>] sample_headers
        else if repoName = js ''G/F_13''
        then Reply [\<lparr>path = js ''13.txt'', sha = js ''f''\<rparr>] sample_headers
        else Reply [\<lparr>path = js ''11.txt'', sha = js ''e''\<rparr>] sample_headers),
      repo_blob = (\<lambda>repoName blobSha.
        if blobSha = js ''a''
        then Reply \<lparr>content = js ''One'' @ [LF, LF] @ js ''Two'', encoding = js ''utf-8''\<rparr>
               sample_headers
        else if blobSha = js ''c''
        then Reply \<lparr>content = js ''Language: French'', encoding = js ''utf-8''\<rparr>
               sample_headers
        else if blobSha = js ''d''
        then Reply \<lparr>content = js ''Character set encoding: X'', encoding = js ''utf-8''\<rparr>
               sample_headers
        else if blobSha = js ''f''
        then Reply \<lparr>content = js ''language: French'' @ [LF, LF] @ js ''Bonjour'',
                     encoding = js ''utf-8''\<rparr>
               sample_headers
        else Reply \<lparr>content = [], encoding = []\<rparr> None),
      date_now = 0\<rparr>"

definition sample_state :: "nat \<Rightarrow> state" where
  "sample_state seed = \<lparr>index = seed, count = 2, cache = {}, book = [], info = []\<rparr>"

section \<open>Results\<close>

lemma foldl_addCharCode: "foldl addCharCode n cs = n + sum_list (map unat cs)"
  by (induction cs arbitrary: n) (simp_all add: addCharCode_def)

lemma getNextIndex_bound: "getNextIndex paragraph \<le> 65535 * length paragraph"
proof -
  have "sum_list (map unat cs) \<le> 65535 * length cs" for cs :: jsstring
  proof (induction cs)
    case Nil
    show ?case by simp
  next
    case (Cons c cs)
    have "unat c < 2 ^ 16"
      using unsigned_less [of c, where ?'a = nat] by simp
    with Cons show ?case by simp
  qed
  then show ?thesis by (simp add: getNextIndex_def foldl_addCharCode)
qed

lemma unat_fromCodePoint:
  "\<forall>cp\<in>set cps. cp \<le> 0xFFFF \<Longrightarrow> map unat (fromCodePoint cps) = cps"
proof (induction cps)
  case Nil
  show ?case by (simp add: fromCodePoint_def)
next
  case (Cons cp cps)
  then have "cp < 2 ^ 16" by simp
  then have "unat (of_nat cp :: jschar) = cp"
    by (simp add: unat_of_nat)
  with Cons show ?case by (simp add: fromCodePoint_def utf16Encoding_def)
qed

text \<open>
  C1, as the code has it. For every string, \<open>getNextIndex\<close> returns the sum of the
  numeric values of its UTF-16 code units, taken in order; being a function of the string
  alone, it gives the same result for the same input. For a string whose characters all
  have code points up to \<open>0xFFFF\<close> this is the sum of the code points.
\<close>

theorem getNextIndex_sum:
  "getNextIndex paragraph = sum_list (map unat paragraph) \<and>
   ((\<forall>cp\<in>set cps. cp \<le> 0xFFFF) \<longrightarrow> getNextIndex (fromCodePoint cps) = sum_list cps)"
  by (simp add: getNextIndex_def foldl_addCharCode unat_fromCodePoint)

theorem getNextIndex_sum_witness:
  "getNextIndex (js ''Hi!'') = 72 + 105 + 33 \<and>
   getNextIndex (fromCodePoint [0x48, 0x20AC]) = 0x48 + 0x20AC"
  using getNextIndex_sum [of "js ''Hi!''" "[0x48, 0x20AC]"]
    getNextIndex_sum [of "fromCodePoint [0x48, 0x20AC]" "[0x48, 0x20AC]"]
  by (simp add: js_def)

text \<open>
  The character with the code point \<open>0x1F600\<close> is held as the two code units
  \<open>0xD83D\<close> and \<open>0xDE00\<close>, and \<open>getNextIndex\<close> adds those: 112189, where the code
  point is 128512.
\<close>

theorem getNextIndex_surrogates:
  "fromCodePoint [0x1F600] = [0xD83D, 0xDE00] \<and>
   getNextIndex (fromCodePoint [0x1F600]) = 112189 \<and>
   sum_list [0x1F600 :: nat] = 128512"
  by (simp add: fromCodePoint_def utf16Encoding_def getNextIndex_def addCharCode_def)

lemma rx_split_nonempty: "rx_split f r acc cu \<noteq> []"
proof (induction f r acc cu rule: rx_split.induct)
  case (1 f r acc p)
  show ?case by simp
next
  case (2 f r acc p x xs)
  then show ?case
    apply (simp split: list.splits prod.splits)
    apply blast
    done
qed

lemma rx_blank_lines_empty: "rx_match no_flags rx_blank_lines (None, []) = []"
  by (simp add: rx_blank_lines_def at_least_two_def)

lemma split_blank_lines_nonempty: "split no_flags rx_blank_lines text \<noteq> []"
  by (simp add: split_def rx_split_nonempty rx_blank_lines_empty)

lemma getNextIndex_LF: "getNextIndex [LF] = 10"
  by (simp add: getNextIndex_def addCharCode_def)

lemma step_no_retry:
  assumes "addParagraph_step cfg pf gh st = Continue st'" and "\<not> retries cfg pf gh st"
  shows "\<exists>result. getGutenbergBook pf gh (clampBookId cfg (index st)) = Fetched result \<and>
     st' = st\<lparr>info := info st @ [Transcribing (clampBookId cfg (index st))],
              book := book st @ [getParagraph result (index st)],
              cache := insert (index st) (cache st),
              index := getNextIndex (getParagraph result (index st)),
              count := count st - 1\<rparr>"
  using assms
  by (auto simp: addParagraph_step_def retries_def Let_def split: if_splits fetched.splits)


lemma trySimilarParagraph_fields:
  "index (trySimilarParagraph st) = index st + 10"
  "count (trySimilarParagraph st) = count st"
  "cache (trySimilarParagraph st) = cache st"
  "book (trySimilarParagraph st) = book st @ [[LF]]"
  "info (trySimilarParagraph st) = info st"
  by (simp_all add: trySimilarParagraph_def Let_def getNextIndex_LF)

lemma transcribed_append:
  "transcribed (st\<lparr>info := info st @ es\<rparr>) =
     transcribed st + length (filter (\<lambda>e. case e of Transcribing b \<Rightarrow> True | _ \<Rightarrow> False) es)"
  by (simp add: transcribed_def)

lemma transcribed_trySimilarParagraph: "transcribed (trySimilarParagraph st) = transcribed st"
  by (simp add: transcribed_def trySimilarParagraph_fields)

lemma step_retry_fields:
  assumes "retries cfg pf gh st"
  shows "\<exists>st'. addParagraph_step cfg pf gh st = Continue st' \<and> index st' = index st + 10 \<and>
     count st' = count st \<and> cache st' = cache st \<and> book st' = book st @ [[LF]] \<and>
     transcribed st' = transcribed st"
proof -
  from assms have c: "\<not> count st < 1" by (simp add: retries_def)
  show ?thesis
  proof (cases "index st \<in> cache st")
    case True
    with c have "addParagraph_step cfg pf gh st = Continue (trySimilarParagraph st)"
      by (simp add: addParagraph_step_def)
    then show ?thesis
      by (simp add: trySimilarParagraph_fields transcribed_trySimilarParagraph)
  next
    case nv: False
    show ?thesis
    proof (cases "excluded cfg (clampBookId cfg (index st))")
      case True
      with c nv have "addParagraph_step cfg pf gh st =
          Continue (trySimilarParagraph (st\<lparr>info := info st @ [Forbidden (clampBookId cfg (index st))]\<rparr>))"
        by (simp add: addParagraph_step_def Let_def)
      then show ?thesis
        by (simp add: trySimilarParagraph_fields transcribed_trySimilarParagraph transcribed_append)
    next
      case False
      with assms nv obtain err where "getGutenbergBook pf gh (clampBookId cfg (index st)) = Failed err"
        by (auto simp: retries_def split: fetched.splits)
      with c nv False have "addParagraph_step cfg pf gh st =
          Continue (trySimilarParagraph (st\<lparr>info := info st @ [Message err]\<rparr>))"
        by (simp add: addParagraph_step_def Let_def)
      then show ?thesis
        by (simp add: trySimilarParagraph_fields transcribed_trySimilarParagraph transcribed_append)
    qed
  qed
qed

lemma step_success_fields:
  assumes "addParagraph_step cfg pf gh st = Continue st'" and "\<not> retries cfg pf gh st"
  shows "count st' = count st - 1 \<and> transcribed st' = transcribed st + 1 \<and>
     cache st' = insert (index st) (cache st) \<and> index st \<notin> cache st \<and>
     (\<exists>result. getGutenbergBook pf gh (clampBookId cfg (index st)) = Fetched result \<and>
        book st' = book st @ [getParagraph result (index st)] \<and>
        index st' = getNextIndex (getParagraph result (index st)))"
proof -
  from step_no_retry [OF assms] obtain result where
    r: "getGutenbergBook pf gh (clampBookId cfg (index st)) = Fetched result" and
    s: "st' = st\<lparr>info := info st @ [Transcribing (clampBookId cfg (index st))],
              book := book st @ [getParagraph result (index st)],
              cache := insert (index st) (cache st),
              index := getNextIndex (getParagraph result (index st)),
              count := count st - 1\<rparr>"
    by blast
  from assms have nv: "index st \<notin> cache st"
    by (auto simp: addParagraph_step_def retries_def split: if_splits)
  from s have "transcribed st' = transcribed st + 1" by (simp add: transcribed_def)
  with r s nv show ?thesis by simp
qed

lemma step_conserves:
  "count (state_of (addParagraph_step cfg pf gh st)) + int (transcribed (state_of (addParagraph_step cfg pf gh st)))
     = count st + int (transcribed st)"
proof (cases "addParagraph_step cfg pf gh st")
  case (Finished s)
  then have "s = st"
    by (auto simp: addParagraph_step_def Let_def split: if_splits fetched.splits)
  with Finished show ?thesis by simp
next
  case (Crashed e s)
  then have "s = st"
    by (auto simp: addParagraph_step_def Let_def split: if_splits fetched.splits)
  with Crashed show ?thesis by simp
next
  case (Continue s)
  show ?thesis
  proof (cases "retries cfg pf gh st")
    case True
    from step_retry_fields [OF True] Continue show ?thesis by auto
  next
    case False
    from step_success_fields [OF Continue False] Continue show ?thesis by simp
  qed
qed

lemma run_conserves:
  "count (state_of (addParagraph cfg pf ghs st)) + int (transcribed (state_of (addParagraph cfg pf ghs st)))
     = count st + int (transcribed st)"
proof (induction ghs arbitrary: st)
  case Nil
  show ?case by simp
next
  case (Cons gh ghs)
  show ?case
  proof (cases "addParagraph_step cfg pf gh st")
    case (Continue s)
    with Cons [of s] step_conserves [of cfg pf gh st] show ?thesis by simp
  next
    case (Finished s)
    with step_conserves [of cfg pf gh st] show ?thesis by simp
  next
    case (Crashed e s)
    with step_conserves [of cfg pf gh st] show ?thesis by simp
  qed
qed

lemma step_cache_mono: "cache st \<subseteq> cache (state_of (addParagraph_step cfg pf gh st))"
  by (auto simp: addParagraph_step_def Let_def trySimilarParagraph_fields split: fetched.splits)

lemma run_cache_mono: "cache st \<subseteq> cache (state_of (addParagraph cfg pf ghs st))"
proof (induction ghs arbitrary: st)
  case Nil
  show ?case by simp
next
  case (Cons gh ghs)
  show ?case
  proof (cases "addParagraph_step cfg pf gh st")
    case (Continue s)
    with Cons [of s] step_cache_mono [of st cfg pf gh] show ?thesis by auto
  next
    case (Finished s)
    with step_cache_mono [of st cfg pf gh] show ?thesis by simp
  next
    case (Crashed e s)
    with step_cache_mono [of st cfg pf gh] show ?thesis by simp
  qed
qed

lemma blob_thrown:
  "getGutenbergBookFromBlob pf gh repo blobSha n = Thrown e \<Longrightarrow>
     e = RateLimitUnavailableError \<and> (\<exists>data. repo_blob gh repo blobSha = Reply data None)"
  by (auto simp: getGutenbergBookFromBlob_def getRateTimeout_def Let_def
      split: reply.splits option.splits sum.splits if_splits)

lemma repo_thrown:
  "getGutenbergBookFromRepo pf gh repoName n = Thrown e \<Longrightarrow>
     e = RateLimitUnavailableError \<and>
     ((\<exists>tree. repo_tree gh repoName (js ''master'') = Reply tree None) \<or>
      (\<exists>blobSha data. repo_blob gh repoName blobSha = Reply data None))"
  by (auto simp: getGutenbergBookFromRepo_def getRateTimeout_def Let_def
      split: reply.splits option.splits sum.splits if_splits dest!: blob_thrown)

lemma book_thrown:
  "getGutenbergBook pf gh n = Thrown e \<Longrightarrow>
     e = RateLimitUnavailableError \<and>
     ((\<exists>items. search_repos gh (js ''_'' @ toString n @ js ''+user:GITenberg'') = Reply items None) \<or>
      (\<exists>repoName tree. repo_tree gh repoName (js ''master'') = Reply tree None) \<or>
      (\<exists>repoName blobSha data. repo_blob gh repoName blobSha = Reply data None))"
  by (auto simp: getGutenbergBook_def getRateTimeout_def Let_def
      split: reply.splits option.splits sum.splits if_splits dest!: repo_thrown)

lemma step_crashed:
  "addParagraph_step cfg pf gh st = Crashed e st' \<Longrightarrow>
     st' = st \<and> getGutenbergBook pf gh (clampBookId cfg (index st)) = Thrown e"
  by (auto simp: addParagraph_step_def Let_def split: if_splits fetched.splits)

lemma run_crashed:
  "addParagraph cfg pf ghs st = Crashed e st' \<Longrightarrow> e = RateLimitUnavailableError"
proof (induction ghs arbitrary: st)
  case Nil
  then show ?case by (simp split: if_splits)
next
  case (Cons gh ghs)
  show ?case
  proof (cases "addParagraph_step cfg pf gh st")
    case (Continue s)
    with Cons show ?thesis by simp
  next
    case (Finished s)
    with Cons show ?thesis by simp
  next
    case (Crashed e' s)
    with Cons.prems have "e' = e" by simp
    with Crashed step_crashed [of cfg pf gh st e s] book_thrown show ?thesis by blast
  qed
qed

text \<open>
  C8. Without headers \<open>getRateTimeout\<close> throws; with headers it returns zero when the
  remaining quota is at least one, and \<open>reset * 1000 - now\<close> (negative once the clock has
  passed the reset time) when it is below one. It throws only when the headers are
  missing.
\<close>

theorem getRateTimeout_cases:
  "getRateTimeout now None = Inl RateLimitUnavailableError \<and>
   (1 \<le> x_ratelimit_remaining h \<longrightarrow> getRateTimeout now (Some h) = Inr 0) \<and>
   (x_ratelimit_remaining h < 1 \<longrightarrow>
      getRateTimeout now (Some h) = Inr (x_ratelimit_reset h * 1000 - now)) \<and>
   ((\<exists>e. getRateTimeout now hs = Inl e) \<longleftrightarrow> hs = None)"
  by (auto simp: getRateTimeout_def Let_def split: option.splits)

theorem getRateTimeout_cases_witness:
  "getRateTimeout 5000 (Some \<lparr>x_ratelimit_remaining = 0, x_ratelimit_reset = 3\<rparr>) = Inr (- 2000) \<and>
   getRateTimeout 5000 (Some \<lparr>x_ratelimit_remaining = 1, x_ratelimit_reset = 3\<rparr>) = Inr 0 \<and>
   getRateTimeout 5000 None = Inl RateLimitUnavailableError"
  using getRateTimeout_cases [of 5000 "\<lparr>x_ratelimit_remaining = 0, x_ratelimit_reset = 3\<rparr>"]
    getRateTimeout_cases [of 5000 "\<lparr>x_ratelimit_remaining = 1, x_ratelimit_reset = 3\<rparr>"]
  by simp

text \<open>
  C10. Splitting any text at its blank lines gives at least one paragraph, so the index
  \<open>seed mod paragraphCount\<close> is below the number of paragraphs, and \<open>getParagraph\<close>
  returns the paragraph at that index followed by two line feeds.
\<close>

theorem getParagraph_total:
  "split no_flags rx_blank_lines text \<noteq> [] \<and>
   seed mod length (split no_flags rx_blank_lines text) < length (split no_flags rx_blank_lines text) \<and>
   getParagraph text seed =
     split no_flags rx_blank_lines text ! (seed mod length (split no_flags rx_blank_lines text)) @ [LF, LF]"
  using split_blank_lines_nonempty [of "text"] by (simp add: getParagraph_def Let_def)

theorem getParagraph_total_witness:
  "getParagraph [] 3 = [LF, LF] \<and> getParagraph (js ''One'' @ [LF, LF] @ js ''Two'') 3 = js ''Two'' @ [LF, LF]"
proof -
  have a: "split no_flags rx_blank_lines [] = [[]]"
    by code_simp
  have b: "split no_flags rx_blank_lines (js ''One'' @ [LF, LF] @ js ''Two'') = [js ''One'', js ''Two'']"
    by code_simp
  have c: "(3::nat) mod Suc (Suc 0) = Suc 0"
    by presburger
  from getParagraph_total [of "[]" 3] getParagraph_total [of "js ''One'' @ [LF, LF] @ js ''Two''" 3]
  show ?thesis unfolding a b by (simp add: c)
qed

text \<open>
  C2, as the code has it. A step on the retry path calls \<open>addParagraph\<close> again with the
  retried seed plus the checksum of the single line feed, which is 10: the increment is
  the same every time, the new seed is not.
\<close>

theorem retry_advances_seed:
  "retries cfg pf gh st \<Longrightarrow>
     \<exists>st'. addParagraph_step cfg pf gh st = Continue st' \<and>
           index st' = index st + getNextIndex [LF] \<and> getNextIndex [LF] = 10"
  using step_retry_fields [of cfg pf gh st] by (auto simp: getNextIndex_LF)

theorem retry_advances_seed_witness:
  "retries sample_config sample_platform sample_github (sample_state 9) \<and>
   (\<exists>st'. addParagraph_step sample_config sample_platform sample_github (sample_state 9) = Continue st' \<and>
          index st' = 19)"
proof -
  have h: "retries sample_config sample_platform sample_github (sample_state 9)"
    by code_simp
  have i: "index (sample_state 9) = 9"
    by (simp add: sample_state_def)
  from retry_advances_seed [OF h] h i show ?thesis by auto
qed

text \<open>
  The seeds 42 and 142 both clamp to the excluded book 42; the retry continues with the
  seed 52 in one case and 152 in the other.
\<close>

theorem retry_seed_not_constant:
  "retries sample_config sample_platform sample_github (sample_state 42) \<and>
   retries sample_config sample_platform sample_github (sample_state 142) \<and>
   index (state_of (addParagraph_step sample_config sample_platform sample_github (sample_state 42))) = 52 \<and>
   index (state_of (addParagraph_step sample_config sample_platform sample_github (sample_state 142))) = 152"
  by code_simp

text \<open>
  C3, as the code has it. A step on the retry path writes the single line feed to the
  book and nothing else: no paragraph is appended, and the text grows by one character.
\<close>

theorem retry_writes_line_feed:
  "retries cfg pf gh st \<Longrightarrow>
     \<exists>st'. addParagraph_step cfg pf gh st = Continue st' \<and>
           book st' = book st @ [[LF]] \<and> concat (book st') = concat (book st) @ [LF] \<and>
           transcribed st' = transcribed st"
  using step_retry_fields [of cfg pf gh st] by auto

theorem retry_writes_line_feed_witness:
  "retries sample_config sample_platform sample_github (sample_state 8) \<and>
   (\<exists>st'. addParagraph_step sample_config sample_platform sample_github (sample_state 8) = Continue st' \<and>
          concat (book st') = [LF])"
proof -
  have h: "retries sample_config sample_platform sample_github (sample_state 8)"
    by code_simp
  have i: "book (sample_state 8) = []"
    by (simp add: sample_state_def)
  from retry_writes_line_feed [OF h] h i show ?thesis by auto
qed

text \<open>
  With book 42 excluded and a start seed of 42, the first step is a retry, and after it
  the book holds a line feed where it was empty before.
\<close>

theorem retry_changes_text:
  "retries sample_config sample_platform sample_github (sample_state 42) \<and>
   concat (book (sample_state 42)) = [] \<and>
   concat (book (state_of (addParagraph_step sample_config sample_platform sample_github (sample_state 42)))) = [LF]"
  by code_simp

text \<open>
  C4. A step on the retry path calls \<open>addParagraph\<close> again with the same count and
  appends no paragraph; every other step that goes on appends one paragraph and
  lowers the count by one. Over a run of any length the count and the number of
  paragraphs appended add up to what they were at the start.
\<close>

theorem count_tracks_paragraphs:
  "(addParagraph_step cfg pf gh st = Continue st' \<longrightarrow>
      (retries cfg pf gh st \<longrightarrow> count st' = count st \<and> transcribed st' = transcribed st) \<and>
      (\<not> retries cfg pf gh st \<longrightarrow>
         count st' = count st - 1 \<and> transcribed st' = transcribed st + 1 \<and>
         (\<exists>result. getGutenbergBook pf gh (clampBookId cfg (index st)) = Fetched result \<and>
            book st' = book st @ [getParagraph result (index st)]))) \<and>
   count (state_of (addParagraph cfg pf ghs st)) + int (transcribed (state_of (addParagraph cfg pf ghs st)))
     = count st + int (transcribed st)"
proof -
  have "count st' = count st \<and> transcribed st' = transcribed st"
    if "addParagraph_step cfg pf gh st = Continue st'" and "retries cfg pf gh st"
    using step_retry_fields [OF that(2)] that(1) by auto
  moreover have "count st' = count st - 1 \<and> transcribed st' = transcribed st + 1 \<and>
         (\<exists>result. getGutenbergBook pf gh (clampBookId cfg (index st)) = Fetched result \<and>
            book st' = book st @ [getParagraph result (index st)])"
    if "addParagraph_step cfg pf gh st = Continue st'" and "\<not> retries cfg pf gh st"
    using step_success_fields [OF that] by blast
  ultimately show ?thesis using run_conserves [of cfg pf ghs st] by blast
qed

theorem count_tracks_paragraphs_witness:
  "addParagraph_step sample_config sample_platform sample_github (sample_state 7) =
     Continue \<lparr>index = 334, count = 1, cache = {7}, book = [js ''Two'' @ [LF, LF]],
               info = [Transcribing (Num 7)]\<rparr> \<and>
   \<not> retries sample_config sample_platform sample_github (sample_state 7) \<and>
   count \<lparr>index = 334, count = 1, cache = {7}, book = [js ''Two'' @ [LF, LF]],
          info = [Transcribing (Num 7)]\<rparr> = count (sample_state 7) - 1 \<and>
   addParagraph_step sample_config sample_platform sample_github (sample_state 8) =
     Continue \<lparr>index = 18, count = 2, cache = {}, book = [[LF]],
               info = [Message (BookNotFoundError (Num 8))]\<rparr> \<and>
   retries sample_config sample_platform sample_github (sample_state 8) \<and>
   count \<lparr>index = 18, count = 2, cache = {}, book = [[LF]],
          info = [Message (BookNotFoundError (Num 8))]\<rparr> = count (sample_state 8)"
proof -
  have a: "addParagraph_step sample_config sample_platform sample_github (sample_state 7) =
     Continue \<lparr>index = 334, count = 1, cache = {7}, book = [js ''Two'' @ [LF, LF]],
               info = [Transcribing (Num 7)]\<rparr>"
    by code_simp
  have b: "\<not> retries sample_config sample_platform sample_github (sample_state 7)"
    by code_simp
  have c: "addParagraph_step sample_config sample_platform sample_github (sample_state 8) =
     Continue \<lparr>index = 18, count = 2, cache = {}, book = [[LF]],
               info = [Message (BookNotFoundError (Num 8))]\<rparr>"
    by code_simp
  have d: "retries sample_config sample_platform sample_github (sample_state 8)"
    by code_simp
  from a b c d
    count_tracks_paragraphs [of sample_config sample_platform sample_github "sample_state 7"
      "\<lparr>index = 334, count = 1, cache = {7}, book = [js ''Two'' @ [LF, LF]],
        info = [Transcribing (Num 7)]\<rparr>" "[]"]
    count_tracks_paragraphs [of sample_config sample_platform sample_github "sample_state 8"
      "\<lparr>index = 18, count = 2, cache = {}, book = [[LF]],
        info = [Message (BookNotFoundError (Num 8))]\<rparr>" "[]"]
  show ?thesis by blast
qed

text \<open>
  C7. No step takes a seed out of the cache, so the cache at any later point of a run
  contains the cache of any earlier point. A step that starts from a seed in the cache
  takes the retry path whatever GitHub would answer, and a step that appends a paragraph
  started from a seed that was not in the cache and puts it there.
\<close>

theorem cache_only_grows:
  "cache st \<subseteq> cache (state_of (addParagraph_step cfg pf gh st)) \<and>
   cache st \<subseteq> cache (state_of (addParagraph cfg pf ghs st)) \<and>
   (index st \<in> cache st \<and> \<not> count st < 1 \<longrightarrow>
      addParagraph_step cfg pf gh st = Continue (trySimilarParagraph st) \<and>
      transcribed (trySimilarParagraph st) = transcribed st) \<and>
   (addParagraph_step cfg pf gh st = Continue st' \<and> transcribed st' \<noteq> transcribed st \<longrightarrow>
      index st \<notin> cache st \<and> cache st' = insert (index st) (cache st))"
proof -
  have "addParagraph_step cfg pf gh st = Continue (trySimilarParagraph st)"
    if "index st \<in> cache st" and "\<not> count st < 1"
    using that by (simp add: addParagraph_step_def)
  moreover have "index st \<notin> cache st \<and> cache st' = insert (index st) (cache st)"
    if s: "addParagraph_step cfg pf gh st = Continue st'" and t: "transcribed st' \<noteq> transcribed st"
  proof (cases "retries cfg pf gh st")
    case True
    from step_retry_fields [OF True] s t show ?thesis by auto
  next
    case False
    from step_success_fields [OF s False] show ?thesis by blast
  qed
  ultimately show ?thesis
    using step_cache_mono [of st cfg pf gh] run_cache_mono [of st cfg pf ghs]
      transcribed_trySimilarParagraph [of st]
    by blast
qed

theorem cache_only_grows_witness:
  "index \<lparr>index = 7, count = 1, cache = {7}, book = [], info = []\<rparr>
     \<in> cache \<lparr>index = 7, count = 1, cache = {7}, book = [], info = []\<rparr> \<and>
   addParagraph_step sample_config sample_platform sample_github
     \<lparr>index = 7, count = 1, cache = {7}, book = [], info = []\<rparr> =
   Continue (trySimilarParagraph \<lparr>index = 7, count = 1, cache = {7}, book = [], info = []\<rparr>)"
  using cache_only_grows [of "\<lparr>index = 7, count = 1, cache = {7}, book = [], info = []\<rparr>"
      sample_config sample_platform sample_github "[]"]
  by simp

lemma retried_state:
  "trySimilarParagraph (st\<lparr>info := info st @ es\<rparr>) =
     st\<lparr>info := info st @ es, book := book st @ [[LF]], index := index st + 10\<rparr>"
  by (simp add: trySimilarParagraph_def Let_def getNextIndex_LF)

text \<open>
  C5. When fetching the book ends in \<open>callback(err)\<close>, whatever the error, the step logs
  its message, writes the line feed, moves the seed on by 10 and calls \<open>addParagraph\<close>
  again with the same count, so the run goes on. When fetching the book throws, nothing
  catches the exception: the step and the run end with it. The only exception is the one
  that \<open>getRateTimeout\<close> throws, and that one only when an answer of GitHub came without
  headers; a search answer without headers always throws.
\<close>

theorem book_failures_are_retried:
  "(\<not> count st < 1 \<and> index st \<notin> cache st \<and> \<not> excluded cfg (clampBookId cfg (index st)) \<and>
      getGutenbergBook pf gh (clampBookId cfg (index st)) = Failed err \<longrightarrow>
      addParagraph_step cfg pf gh st =
        Continue (trySimilarParagraph (st\<lparr>info := info st @ [Message err]\<rparr>)) \<and>
      addParagraph_step cfg pf gh st =
        Continue (st\<lparr>info := info st @ [Message err], book := book st @ [[LF]],
                    index := index st + 10\<rparr>) \<and>
      addParagraph cfg pf (gh # ghs) st =
        addParagraph cfg pf ghs
          (st\<lparr>info := info st @ [Message err], book := book st @ [[LF]],
              index := index st + 10\<rparr>)) \<and>
   (\<not> count st < 1 \<and> index st \<notin> cache st \<and> \<not> excluded cfg (clampBookId cfg (index st)) \<and>
      getGutenbergBook pf gh (clampBookId cfg (index st)) = Thrown e \<longrightarrow>
      e = RateLimitUnavailableError \<and>
      addParagraph_step cfg pf gh st = Crashed RateLimitUnavailableError st \<and>
      addParagraph cfg pf (gh # ghs) st = Crashed RateLimitUnavailableError st) \<and>
   (addParagraph_step cfg pf gh st = Crashed e st' \<longrightarrow>
      e = RateLimitUnavailableError \<and> st' = st \<and>
      getGutenbergBook pf gh (clampBookId cfg (index st)) = Thrown RateLimitUnavailableError) \<and>
   (addParagraph cfg pf ghs st = Crashed e st' \<longrightarrow> e = RateLimitUnavailableError) \<and>
   (getGutenbergBook pf gh n = Thrown e \<longrightarrow>
      e = RateLimitUnavailableError \<and>
      ((\<exists>items. search_repos gh (js ''_'' @ toString n @ js ''+user:GITenberg'') = Reply items None) \<or>
       (\<exists>repoName tree. repo_tree gh repoName (js ''master'') = Reply tree None) \<or>
       (\<exists>repoName blobSha data. repo_blob gh repoName blobSha = Reply data None))) \<and>
   (search_repos gh (js ''_'' @ toString n @ js ''+user:GITenberg'') = Reply items None \<longrightarrow>
      getGutenbergBook pf gh n = Thrown RateLimitUnavailableError) \<and>
   (repo_blob gh repoName blobSha = Reply data None \<longrightarrow>
      getGutenbergBookFromBlob pf gh repoName blobSha n = Thrown RateLimitUnavailableError)"
proof -
  have a: "addParagraph_step cfg pf gh st =
        Continue (trySimilarParagraph (st\<lparr>info := info st @ [Message err]\<rparr>))"
    if "\<not> count st < 1" "index st \<notin> cache st" "\<not> excluded cfg (clampBookId cfg (index st))"
      "getGutenbergBook pf gh (clampBookId cfg (index st)) = Failed err"
    using that by (simp add: addParagraph_step_def Let_def)
  have a': "addParagraph_step cfg pf gh st =
        Continue (st\<lparr>info := info st @ [Message err], book := book st @ [[LF]],
                    index := index st + 10\<rparr>)"
    if "\<not> count st < 1" "index st \<notin> cache st" "\<not> excluded cfg (clampBookId cfg (index st))"
      "getGutenbergBook pf gh (clampBookId cfg (index st)) = Failed err"
    using a [OF that] by (simp only: retried_state)
  have a'': "addParagraph cfg pf (gh # ghs) st =
        addParagraph cfg pf ghs
          (st\<lparr>info := info st @ [Message err], book := book st @ [[LF]],
              index := index st + 10\<rparr>)"
    if "\<not> count st < 1" "index st \<notin> cache st" "\<not> excluded cfg (clampBookId cfg (index st))"
      "getGutenbergBook pf gh (clampBookId cfg (index st)) = Failed err"
    using a' [OF that] by simp
  have t: "e = RateLimitUnavailableError \<and>
      addParagraph_step cfg pf gh st = Crashed RateLimitUnavailableError st \<and>
      addParagraph cfg pf (gh # ghs) st = Crashed RateLimitUnavailableError st"
    if "\<not> count st < 1" "index st \<notin> cache st" "\<not> excluded cfg (clampBookId cfg (index st))"
      "getGutenbergBook pf gh (clampBookId cfg (index st)) = Thrown e"
  proof -
    from book_thrown [OF that(4)] have e: "e = RateLimitUnavailableError" by simp
    from that have "addParagraph_step cfg pf gh st = Crashed e st"
      by (simp add: addParagraph_step_def Let_def)
    with e show ?thesis by simp
  qed
  have b: "e = RateLimitUnavailableError \<and> st' = st \<and>
      getGutenbergBook pf gh (clampBookId cfg (index st)) = Thrown RateLimitUnavailableError"
    if "addParagraph_step cfg pf gh st = Crashed e st'"
    using step_crashed [OF that] book_thrown [of pf gh "clampBookId cfg (index st)" e] by simp
  have c: "e = RateLimitUnavailableError" if "addParagraph cfg pf ghs st = Crashed e st'"
    using run_crashed [OF that] .
  have d: "getGutenbergBook pf gh n = Thrown RateLimitUnavailableError"
    if "search_repos gh (js ''_'' @ toString n @ js ''+user:GITenberg'') = Reply items None"
    using that by (simp add: getGutenbergBook_def getRateTimeout_def Let_def)
  have f: "getGutenbergBookFromBlob pf gh repoName blobSha n = Thrown RateLimitUnavailableError"
    if "repo_blob gh repoName blobSha = Reply data None"
    using that by (simp add: getGutenbergBookFromBlob_def getRateTimeout_def)
  from a a' a'' t b c d f book_thrown [of pf gh n e] show ?thesis by blast
qed

text \<open>
  The four failures of a single book on the sample GitHub, each followed by a retry, and
  the answer without headers, which ends the step and the run.
\<close>

theorem book_failures_are_retried_witness:
  "addParagraph_step sample_config sample_platform sample_github (sample_state 12) =
     Continue \<lparr>index = 22, count = 2, cache = {}, book = [[LF]],
               info = [Message (RepoNotFoundError (Num 12))]\<rparr> \<and>
   addParagraph_step sample_config sample_platform sample_github (sample_state 8) =
     Continue \<lparr>index = 18, count = 2, cache = {}, book = [[LF]],
               info = [Message (BookNotFoundError (Num 8))]\<rparr> \<and>
   addParagraph_step sample_config sample_platform sample_github (sample_state 9) =
     Continue \<lparr>index = 19, count = 2, cache = {}, book = [[LF]],
               info = [Message (DialectError (Num 9))]\<rparr> \<and>
   addParagraph_step sample_config sample_platform sample_github (sample_state 10) =
     Continue \<lparr>index = 20, count = 2, cache = {}, book = [[LF]],
               info = [Message (IllegibleError (Num 10))]\<rparr> \<and>
   addParagraph_step sample_config sample_platform sample_github (sample_state 11) =
     Crashed RateLimitUnavailableError (sample_state 11) \<and>
   addParagraph sample_config sample_platform [sample_github, sample_github] (sample_state 11) =
     Crashed RateLimitUnavailableError (sample_state 11)"
proof -
  have g: "\<not> count (sample_state k) < 1 \<and> index (sample_state k) \<notin> cache (sample_state k)" for k
    by (simp add: sample_state_def)
  have i: "index (sample_state k) = k" for k
    by (simp add: sample_state_def)
  have x: "\<not> excluded sample_config (clampBookId sample_config 12)"
      "\<not> excluded sample_config (clampBookId sample_config 8)"
      "\<not> excluded sample_config (clampBookId sample_config 9)"
      "\<not> excluded sample_config (clampBookId sample_config 10)"
      "\<not> excluded sample_config (clampBookId sample_config 11)"
    by (simp_all add: excluded_def clampBookId_def sample_config_def)
  have f12: "getGutenbergBook sample_platform sample_github (clampBookId sample_config 12)
      = Failed (RepoNotFoundError (Num 12))"
    by code_simp
  have f8: "getGutenbergBook sample_platform sample_github (clampBookId sample_config 8)
      = Failed (BookNotFoundError (Num 8))"
    by code_simp
  have f9: "getGutenbergBook sample_platform sample_github (clampBookId sample_config 9)
      = Failed (DialectError (Num 9))"
    by code_simp
  have f10: "getGutenbergBook sample_platform sample_github (clampBookId sample_config 10)
      = Failed (IllegibleError (Num 10))"
    by code_simp
  have t11: "getGutenbergBook sample_platform sample_github (clampBookId sample_config 11)
      = Thrown RateLimitUnavailableError"
    by code_simp
  from book_failures_are_retried [of "sample_state 12" sample_config sample_platform sample_github
      "RepoNotFoundError (Num 12)"] g [of 12] x f12
  have "addParagraph_step sample_config sample_platform sample_github (sample_state 12) =
     Continue ((sample_state 12)\<lparr>info := info (sample_state 12) @ [Message (RepoNotFoundError (Num 12))],
       book := book (sample_state 12) @ [[LF]], index := index (sample_state 12) + 10\<rparr>)"
    unfolding i by blast
  then have r12: "addParagraph_step sample_config sample_platform sample_github (sample_state 12) =
     Continue \<lparr>index = 22, count = 2, cache = {}, book = [[LF]],
               info = [Message (RepoNotFoundError (Num 12))]\<rparr>"
    by (simp add: sample_state_def)
  from book_failures_are_retried [of "sample_state 8" sample_config sample_platform sample_github
      "BookNotFoundError (Num 8)"] g [of 8] x f8
  have "addParagraph_step sample_config sample_platform sample_github (sample_state 8) =
     Continue ((sample_state 8)\<lparr>info := info (sample_state 8) @ [Message (BookNotFoundError (Num 8))],
       book := book (sample_state 8) @ [[LF]], index := index (sample_state 8) + 10\<rparr>)"
    unfolding i by blast
  then have r8: "addParagraph_step sample_config sample_platform sample_github (sample_state 8) =
     Continue \<lparr>index = 18, count = 2, cache = {}, book = [[LF]],
               info = [Message (BookNotFoundError (Num 8))]\<rparr>"
    by (simp add: sample_state_def)
  from book_failures_are_retried [of "sample_state 9" sample_config sample_platform sample_github
      "DialectError (Num 9)"] g [of 9] x f9
  have "addParagraph_step sample_config sample_platform sample_github (sample_state 9) =
     Continue ((sample_state 9)\<lparr>info := info (sample_state 9) @ [Message (DialectError (Num 9))],
       book := book (sample_state 9) @ [[LF]], index := index (sample_state 9) + 10\<rparr>)"
    unfolding i by blast
  then have r9: "addParagraph_step sample_config sample_platform sample_github (sample_state 9) =
     Continue \<lparr>index = 19, count = 2, cache = {}, book = [[LF]],
               info = [Message (DialectError (Num 9))]\<rparr>"
    by (simp add: sample_state_def)
  from book_failures_are_retried [of "sample_state 10" sample_config sample_platform sample_github
      "IllegibleError (Num 10)"] g [of 10] x f10
  have "addParagraph_step sample_config sample_platform sample_github (sample_state 10) =
     Continue ((sample_state 10)\<lparr>info := info (sample_state 10) @ [Message (IllegibleError (Num 10))],
       book := book (sample_state 10) @ [[LF]], index := index (sample_state 10) + 10\<rparr>)"
    unfolding i by blast
  then have r10: "addParagraph_step sample_config sample_platform sample_github (sample_state 10) =
     Continue \<lparr>index = 20, count = 2, cache = {}, book = [[LF]],
               info = [Message (IllegibleError (Num 10))]\<rparr>"
    by (simp add: sample_state_def)
  from book_failures_are_retried [of "sample_state 11" sample_config sample_platform sample_github
      _ "[sample_github]" RateLimitUnavailableError] g [of 11] x t11
  have c11: "addParagraph_step sample_config sample_platform sample_github (sample_state 11) =
       Crashed RateLimitUnavailableError (sample_state 11) \<and>
     addParagraph sample_config sample_platform [sample_github, sample_github] (sample_state 11) =
       Crashed RateLimitUnavailableError (sample_state 11)"
    unfolding i by blast
  from r12 r8 r9 r10 c11 show ?thesis by blast
qed

lemma rx_match_chars:
  "\<not> ignoreCase f \<Longrightarrow>
   rx_match f (chars cs) (p, xs) =
     (if prefix cs xs then [(if cs = [] then p else Some (last cs), drop (length cs) xs)] else [])"
proof (induction cs arbitrary: p xs rule: chars.induct)
  case 1
  show ?case by simp
next
  case (2 c)
  then show ?case by (cases xs) auto
next
  case (3 c d ds)
  show ?case
  proof (cases xs)
    case Nil
    then show ?thesis by simp
  next
    case (Cons y ys)
    with 3 show ?thesis by auto
  qed
qed

lemma lazy_dot_Nil: "rx_match f (Lazy (Atom Dot)) (p, []) = [(p, [])]"
  by simp

lemma lazy_dot_Cons:
  "rx_match f (Lazy (Atom Dot)) (p, x # xs) =
     (p, x # xs) # (if isLineTerminator x then [] else rx_match f (Lazy (Atom Dot)) (Some x, xs))"
  by simp

lemma rest_of_line:
  "multiline f \<Longrightarrow>
   \<exists>q. rx_match f (Seq (Lazy (Atom Dot)) Eol) (p, xs) =
     [(q, dropWhile (\<lambda>c. \<not> isLineTerminator c) xs)]"
proof (induction xs arbitrary: p)
  case Nil
  show ?case by simp
next
  case (Cons x xs)
  show ?case
  proof (cases "isLineTerminator x")
    case True
    with Cons.prems show ?thesis by simp
  next
    case False
    from Cons.IH [OF Cons.prems, of "Some x"] obtain q where
      "rx_match f (Seq (Lazy (Atom Dot)) Eol) (Some x, xs) = [(q, dropWhile (\<lambda>c. \<not> isLineTerminator c) xs)]"
      by blast
    with False Cons.prems show ?thesis by simp
  qed
qed


lemma declaration_no_match:
  assumes "\<not> prefix l xs"
  shows "rx_match flag_m (seqs [chars l, Lazy (Atom Dot), Eol]) (p, xs) = []"
  using assms by (simp add: rx_match_chars flag_m_def)

lemma declaration_match:
  assumes "prefix l xs"
  shows "\<exists>q. rx_match flag_m (seqs [chars l, Lazy (Atom Dot), Eol]) (p, xs) =
     [(q, dropWhile (\<lambda>c. \<not> isLineTerminator c) (drop (length l) xs))]"
proof -
  have m: "multiline flag_m" by (simp add: flag_m_def)
  from rest_of_line [OF m] obtain q where
    "rx_match flag_m (Seq (Lazy (Atom Dot)) Eol) (if l = [] then p else Some (last l), drop (length l) xs)
       = [(q, dropWhile (\<lambda>c. \<not> isLineTerminator c) (drop (length l) xs))]"
    by blast
  with assms show ?thesis by (simp add: rx_match_chars flag_m_def)
qed

lemma rx_exec_none:
  "(\<And>s p. suffix s xs \<Longrightarrow> rx_match f r (p, s) = []) \<Longrightarrow> rx_exec f r acc (p0, xs) = None"
proof (induction xs arbitrary: acc p0)
  case Nil
  then show ?case by simp
next
  case (Cons x xs)
  have "rx_match f r (p0, x # xs) = []"
    using Cons.prems by simp
  moreover have "rx_exec f r (x # acc) (Some x, xs) = None"
    using Cons.prems by (intro Cons.IH) (simp add: suffix_Cons)
  ultimately show ?case by simp
qed

lemma rx_exec_found:
  assumes "\<And>s p. s \<noteq> [] \<Longrightarrow> suffix s pre \<Longrightarrow> rx_match f r (p, s @ xs) = []"
    and "\<And>p. \<exists>q ms. rx_match f r (p, xs) = (q, rest) # ms"
  shows "rx_exec f r acc (p0, pre @ xs) = Some (rev acc @ pre, take (length xs - length rest) xs, rest)"
  using assms(1)
proof (induction pre arbitrary: acc p0)
  case Nil
  from assms(2) [of p0] obtain q ms where "rx_match f r (p0, xs) = (q, rest) # ms" by blast
  then show ?case by (cases xs) simp_all
next
  case (Cons a pre)
  have "rx_match f r (p0, (a # pre) @ xs) = []"
    using Cons.prems by blast
  moreover have "rx_exec f r (a # acc) (Some a, pre @ xs)
      = Some (rev (a # acc) @ pre, take (length xs - length rest) xs, rest)"
    using Cons.prems by (intro Cons.IH) (simp add: suffix_Cons)
  ultimately show ?case by simp
qed

lemma no_earlier_occurrence:
  assumes "\<not> sublist l (pre @ butlast l)" and "suffix s pre" and "s \<noteq> []"
  shows "\<not> prefix l (s @ l @ t)"
proof
  assume pl: "prefix l (s @ l @ t)"
  from assms(1) have ne: "l \<noteq> []" by auto
  then have l: "l = butlast l @ [last l]" by simp
  from assms(3) ne have len: "length l \<le> length (s @ butlast l)"
    by (cases s) simp_all
  have "s @ l @ t = (s @ butlast l) @ ([last l] @ t)"
    using l by (metis append.assoc)
  with pl have "prefix l ((s @ butlast l) @ ([last l] @ t))" by simp
  with len have "prefix l (s @ butlast l)"
    by (metis prefix_append prefix_length_le prefix_order.antisym prefix_def append_eq_append_conv_if append_eq_conv_conj take_all)
  then obtain u where "s @ butlast l = l @ u" by (auto simp: prefix_def)
  moreover from assms(2) obtain a where "pre = a @ s" by (auto simp: suffix_def)
  ultimately have "pre @ butlast l = a @ l @ u" by simp
  then have "sublist l (pre @ butlast l)" unfolding sublist_def by blast
  with assms(1) show False by simp
qed


lemma exec_declaration_none:
  assumes "\<not> sublist l text"
  shows "exec flag_m (seqs [chars l, Lazy (Atom Dot), Eol]) text = None"
  unfolding exec_def
proof (rule rx_exec_none)
  fix s p
  assume "suffix s text"
  then obtain a where "text = a @ s" by (auto simp: suffix_def)
  with assms have "\<not> prefix l s" by (auto simp: prefix_def sublist_def)
  then show "rx_match flag_m (seqs [chars l, Lazy (Atom Dot), Eol]) (p, s) = []"
    by (rule declaration_no_match)
qed

lemma exec_declaration_found:
  assumes "\<not> sublist l (pre @ butlast l)"
    and "\<forall>c\<in>set v. \<not> isLineTerminator c"
    and "rest = [] \<or> isLineTerminator (hd rest)"
  shows "exec flag_m (seqs [chars l, Lazy (Atom Dot), Eol]) (pre @ l @ v @ rest) = Some (pre, l @ v, rest)"
proof -
  let ?r = "seqs [chars l, Lazy (Atom Dot), Eol]"
  have d: "dropWhile (\<lambda>c. \<not> isLineTerminator c) (v @ rest) = rest"
    using assms(2,3) by (cases rest) (simp_all add: dropWhile_append3 dropWhile_append)
  have a: "rx_match flag_m ?r (p, s @ (l @ v @ rest)) = []" if "s \<noteq> []" "suffix s pre" for s p
    using no_earlier_occurrence [OF assms(1) that(2) that(1)] by (rule declaration_no_match)
  have b: "\<exists>q ms. rx_match flag_m ?r (p, l @ v @ rest) = (q, rest) # ms" for p
    using declaration_match [of l "l @ v @ rest" p] d by auto
  from rx_exec_found [of pre flag_m ?r "l @ v @ rest" rest "[]" None, OF a b]
  show ?thesis by (simp add: exec_def)
qed

lemma length_js: "length (js s) = length s"
  by (simp add: js_def)

lemma blob_dialect:
  assumes "repo_blob gh repo blobSha = Reply data (Some h)"
    and "getBookLanguage pf (bufferToString pf (newBuffer pf (content data) (encoding data))) \<noteq> js ''english''"
  shows "getGutenbergBookFromBlob pf gh repo blobSha n = Failed (DialectError n)"
  using assms by (simp add: getGutenbergBookFromBlob_def getRateTimeout_def Let_def)

text \<open>
  C6, as the code has it. The label of a declaration is matched exactly, letter case
  included, anywhere in a line; the name after the first label, up to the end of that
  line, is turned to lower case. A text without the label has the encoding \<open>ascii\<close> and
  the language \<open>english\<close>. A blob whose language, so read, is not \<open>english\<close> ends in
  the dialect error whatever its decoding would give.
\<close>

theorem declarations_read_exactly:
  "(\<not> sublist (js language_label) text \<longrightarrow> getBookLanguage pf text = js ''english'') \<and>
   (\<not> sublist (js encoding_label) text \<longrightarrow> getBookEncoding pf text = js ''ascii'') \<and>
   (\<not> sublist (js language_label) (pre @ butlast (js language_label)) \<and>
    (\<forall>c\<in>set v. \<not> isLineTerminator c) \<and> (rest = [] \<or> isLineTerminator (hd rest)) \<longrightarrow>
      getBookLanguage pf (pre @ js language_label @ v @ rest) = toLowerCase pf v) \<and>
   (\<not> sublist (js encoding_label) (pre @ butlast (js encoding_label)) \<and>
    (\<forall>c\<in>set v. \<not> isLineTerminator c) \<and> (rest = [] \<or> isLineTerminator (hd rest)) \<longrightarrow>
      getBookEncoding pf (pre @ js encoding_label @ v @ rest) = toLowerCase pf v) \<and>
   (repo_blob gh repo blobSha = Reply data (Some h) \<and>
    getBookLanguage pf (bufferToString pf (newBuffer pf (content data) (encoding data))) \<noteq> js ''english'' \<longrightarrow>
      getGutenbergBookFromBlob pf gh repo blobSha n = Failed (DialectError n))"
proof -
  have a: "getBookLanguage pf text = js ''english''" if "\<not> sublist (js language_label) text"
    using exec_declaration_none [OF that]
    by (simp add: getBookLanguage_def rx_language_def lit_def)
  have b: "getBookEncoding pf text = js ''ascii''" if "\<not> sublist (js encoding_label) text"
    using exec_declaration_none [OF that]
    by (simp add: getBookEncoding_def rx_encoding_def lit_def)
  have c: "getBookLanguage pf (pre @ js language_label @ v @ rest) = toLowerCase pf v"
    if "\<not> sublist (js language_label) (pre @ butlast (js language_label))"
      "\<forall>c\<in>set v. \<not> isLineTerminator c" "rest = [] \<or> isLineTerminator (hd rest)"
    using exec_declaration_found [OF that]
    by (simp add: getBookLanguage_def rx_language_def lit_def length_js)
  have d: "getBookEncoding pf (pre @ js encoding_label @ v @ rest) = toLowerCase pf v"
    if "\<not> sublist (js encoding_label) (pre @ butlast (js encoding_label))"
      "\<forall>c\<in>set v. \<not> isLineTerminator c" "rest = [] \<or> isLineTerminator (hd rest)"
    using exec_declaration_found [OF that]
    by (simp add: getBookEncoding_def rx_encoding_def lit_def length_js)
  from a b c d blob_dialect [of gh repo blobSha data h pf n] show ?thesis by blast
qed

text \<open>
  A declaration whose label is written in another letter case is not seen: the French
  book 13 of the sample GitHub is read as English and fetched.
\<close>

theorem label_case_matters:
  "getBookLanguage sample_platform (js ''language: French'') = js ''english'' \<and>
   getBookLanguage sample_platform (js ''Language: French'') = js ''french'' \<and>
   getBookEncoding sample_platform (js ''CHARACTER SET ENCODING: UTF-8'') = js ''ascii'' \<and>
   getGutenbergBook sample_platform sample_github (Num 13) =
     Fetched (js ''language: French'' @ [LF, LF] @ js ''Bonjour'')"
  by code_simp


theorem declarations_read_exactly_witness:
  "getBookLanguage sample_platform (js ''Title: X'') = js ''english'' \<and>
   getBookEncoding sample_platform (js ''Title: X'') = js ''ascii'' \<and>
   getBookLanguage sample_platform
     ((js ''Title: X'' @ [LF]) @ js language_label @ js ''French'' @ [CR, LF]) =
     toLowerCase sample_platform (js ''French'') \<and>
   getBookEncoding sample_platform
     ((js ''Title: X'' @ [LF]) @ js encoding_label @ js ''UTF-8'' @ [CR, LF]) =
     toLowerCase sample_platform (js ''UTF-8'') \<and>
   getGutenbergBookFromBlob sample_platform sample_github (js ''G/C_9'') (js ''c'') (Num 9) =
     Failed (DialectError (Num 9))"
proof -
  have a: "\<not> sublist (js language_label) (js ''Title: X'')"
    by code_simp
  have b: "\<not> sublist (js encoding_label) (js ''Title: X'')"
    by code_simp
  have c: "\<not> sublist (js language_label) ((js ''Title: X'' @ [LF]) @ butlast (js language_label))"
    by code_simp
  have d: "\<not> sublist (js encoding_label) ((js ''Title: X'' @ [LF]) @ butlast (js encoding_label))"
    by code_simp
  have e: "\<forall>c\<in>set (js ''French''). \<not> isLineTerminator c"
    by code_simp
  have f: "\<forall>c\<in>set (js ''UTF-8''). \<not> isLineTerminator c"
    by code_simp
  have g: "[CR, LF] = [] \<or> isLineTerminator (hd [CR, LF])"
    by (simp add: isLineTerminator_def)
  have h: "repo_blob sample_github (js ''G/C_9'') (js ''c'') =
      Reply \<lparr>content = js ''Language: French'', encoding = js ''utf-8''\<rparr>
        (Some \<lparr>x_ratelimit_remaining = 59, x_ratelimit_reset = 1\<rparr>)"
    by code_simp
  have i: "getBookLanguage sample_platform
      (bufferToString sample_platform (newBuffer sample_platform
        (content \<lparr>content = js ''Language: French'', encoding = js ''utf-8''\<rparr>)
        (encoding \<lparr>content = js ''Language: French'', encoding = js ''utf-8''\<rparr>))) \<noteq> js ''english''"
    by code_simp
  from declarations_read_exactly [of "js ''Title: X''" sample_platform "js ''Title: X'' @ [LF]"
      "js ''French''" "[CR, LF]" sample_github "js ''G/C_9''" "js ''c''"
      "\<lparr>content = js ''Language: French'', encoding = js ''utf-8''\<rparr>"
      "\<lparr>x_ratelimit_remaining = 59, x_ratelimit_reset = 1\<rparr>" "Num 9"]
    declarations_read_exactly [of "js ''Title: X''" sample_platform "js ''Title: X'' @ [LF]"
      "js ''UTF-8''" "[CR, LF]" sample_github "js ''G/C_9''" "js ''c''"
      "\<lparr>content = js ''Language: French'', encoding = js ''utf-8''\<rparr>"
      "\<lparr>x_ratelimit_remaining = 59, x_ratelimit_reset = 1\<rparr>" "Num 9"]
    a b c d e f g h i
  show ?thesis by blast
qed

lemma rx_match_suffix:
  "cu' \<in> set (rx_match f r cu) \<Longrightarrow> suffix (snd cu') (snd cu)"
proof (induction f r cu arbitrary: cu' rule: rx_match.induct)
  case (1 f a p xs)
  then show ?case by (cases xs) (auto simp: suffix_Cons split: if_splits)
next
  case (2 f cu)
  then show ?case by simp
next
  case (3 f r s cu)
  from 3(3) obtain m where m: "m \<in> set (rx_match f r cu)" and c: "cu' \<in> set (rx_match f s m)"
    by auto
  from 3(1) [OF m] 3(2) [OF m c] show ?case by (rule suffix_order.trans [rotated])
next
  case (4 f r s cu)
  from 4(3) have "cu' \<in> set (rx_match f r cu) \<or> cu' \<in> set (rx_match f s cu)"
    by simp
  with 4(1) 4(2) show ?case by blast
next
  case (5 f r cu)
  have "set (rx_match f (Star r) cu) =
      insert cu (\<Union>m\<in>{m \<in> set (rx_match f r cu). length (snd m) < length (snd cu)}.
        set (rx_match f (Star r) m))"
    by (subst rx_match.simps(5)) (auto simp del: rx_match.simps split: if_splits)
  with 5(3) consider "cu' = cu"
    | m where "m \<in> set (rx_match f r cu)" "length (snd m) < length (snd cu)"
        "cu' \<in> set (rx_match f (Star r) m)"
    by (auto simp del: rx_match.simps)
  then show ?case
  proof cases
    case 1
    then show ?thesis by simp
  next
    case 2
    from 5(1) [OF 2(1)] 5(2) [OF 2(1) 2(2) 2(3)] show ?thesis
      by (rule suffix_order.trans [rotated])
  qed
next
  case (6 f r cu)
  have "set (rx_match f (Lazy r) cu) =
      insert cu (\<Union>m\<in>{m \<in> set (rx_match f r cu). length (snd m) < length (snd cu)}.
        set (rx_match f (Lazy r) m))"
    by (subst rx_match.simps(6)) (auto simp del: rx_match.simps split: if_splits)
  with 6(3) consider "cu' = cu"
    | m where "m \<in> set (rx_match f r cu)" "length (snd m) < length (snd cu)"
        "cu' \<in> set (rx_match f (Lazy r) m)"
    by (auto simp del: rx_match.simps)
  then show ?case
  proof cases
    case 1
    then show ?thesis by simp
  next
    case 2
    from 6(1) [OF 2(1)] 6(2) [OF 2(1) 2(2) 2(3)] show ?thesis
      by (rule suffix_order.trans [rotated])
  qed
next
  case (7 f p xs)
  then show ?case by (auto split: option.splits if_splits)
next
  case (8 f p xs)
  then show ?case by (auto split: list.splits if_splits)
qed

lemma seq_no_match:
  assumes "\<And>q s. suffix s (snd cu) \<Longrightarrow> rx_match f r2 (q, s) = []"
  shows "rx_match f (Seq r1 r2) cu = []"
proof -
  have "rx_match f r2 m = []" if "m \<in> set (rx_match f r1 cu)" for m
    using assms [of "snd m" "fst m"] rx_match_suffix [OF that] by simp
  then show ?thesis by simp
qed


lemma seqs_no_match:
  "rs \<noteq> [] \<Longrightarrow> (\<And>q s. suffix s xs \<Longrightarrow> rx_match f (last rs) (q, s) = []) \<Longrightarrow>
   rx_match f (seqs rs) (p, xs) = []"
proof (induction rs arbitrary: p xs rule: seqs.induct)
  case 1
  then show ?case by simp
next
  case (2 r)
  then show ?case by simp
next
  case (3 r r' rs)
  have "rx_match f (seqs (r' # rs)) (q, s) = []" if "suffix s xs" for q s
  proof (rule 3(1))
    show "r' # rs \<noteq> []" by simp
    fix q' s'
    assume "suffix s' s"
    with that have "suffix s' xs" by (blast intro: suffix_order.trans)
    then show "rx_match f (last (r' # rs)) (q', s') = []"
      using 3(3) [of s' q'] by simp
  qed
  then have "rx_match f (Seq r (seqs (r' # rs))) (p, xs) = []"
    by (intro seq_no_match) simp
  then show ?case by simp
qed

lemma canonicalize_CR: "canonicalize x = canonicalize CR \<longleftrightarrow> x = CR"
proof -
  have "x = 0x2D" if "x - 0x20 = CR"
  proof -
    from that have "x = CR + 0x20" by (simp add: diff_eq_eq)
    then show ?thesis by simp
  qed
  then show ?thesis by (auto simp: canonicalize_def)
qed

lemma at_least_two_crlf_no_match:
  assumes "\<not> prefix [CR, LF] s"
  shows "rx_match f (at_least_two (chars [CR, LF])) (q, s) = []"
proof (cases s)
  case Nil
  then show ?thesis by (simp add: at_least_two_def)
next
  case (Cons x xs)
  show ?thesis
  proof (cases "accepts f (Chr CR) x")
    case False
    with Cons show ?thesis by (simp add: at_least_two_def del: accepts.simps)
  next
    case True
    then have x: "x = CR" by (simp add: canonicalize_CR split: if_splits)
    show ?thesis
    proof (cases xs)
      case Nil
      with Cons show ?thesis by (simp add: at_least_two_def)
    next
      case (Cons y ys)
      with assms x \<open>s = x # xs\<close> have "y \<noteq> LF" by simp
      then have "\<not> accepts f (Chr LF) y"
        by (auto simp: canonicalize_def split: if_splits)
      with Cons \<open>s = x # xs\<close> show ?thesis by (simp add: at_least_two_def del: accepts.simps)
    qed
  qed
qed

lemma produced_by_needs_crlf:
  assumes "\<not> sublist [CR, LF] text"
  shows "exec flag_i rx_produced_by text = None"
  unfolding exec_def
proof (rule rx_exec_none)
  fix s p
  assume st: "suffix s text"
  have "rx_match flag_i (last [Bol, Star (Atom Space), lit ''produced'', plus (Atom Space),
          lit ''by'', lazy_plus (Atom AnyChar), at_least_two (chars [CR, LF])]) (q, s') = []"
    if "suffix s' s" for q s'
  proof -
    from that st have "suffix s' text" by (blast intro: suffix_order.trans)
    then obtain a where "text = a @ s'" by (auto simp: suffix_def)
    with assms have "\<not> prefix [CR, LF] s'" by (auto simp: prefix_def sublist_def)
    then show ?thesis by (simp add: at_least_two_crlf_no_match del: chars.simps)
  qed
  then show "rx_match flag_i rx_produced_by (p, s) = []"
    unfolding rx_produced_by_def by (intro seqs_no_match) simp_all
qed


lemma replace_all_char:
  "\<not> ignoreCase f \<Longrightarrow> rx_replace_all f (Atom (Chr c)) [] (p, s) = filter (\<lambda>x. x \<noteq> c) s"
  by (induction s arbitrary: p) simp_all

lemma crlf_match:
  "rx_match no_flags (chars [CR, LF]) (p, s) =
     (if prefix [CR, LF] s then [(Some LF, drop 2 s)] else [])"
proof (cases s)
  case Nil
  then show ?thesis by simp
next
  case (Cons x xs)
  then show ?thesis by (cases xs) (auto simp: no_flags_def)
qed

lemma replace_all_crlf_id:
  "\<not> sublist [CR, LF] s \<Longrightarrow> rx_replace_all no_flags (chars [CR, LF]) [LF] (p, s) = s"
proof (induction s arbitrary: p)
  case Nil
  show ?case by (simp add: crlf_match del: chars.simps)
next
  case (Cons x xs)
  from Cons.prems have a: "\<not> prefix [CR, LF] (x # xs)"
    by (meson prefix_imp_sublist)
  from Cons.prems have "\<not> sublist [CR, LF] xs"
    by (meson sublist_Cons_right)
  then have "rx_replace_all no_flags (chars [CR, LF]) [LF] (Some x, xs) = xs"
    by (rule Cons.IH)
  with a show ?case by (simp add: crlf_match del: chars.simps)
qed

lemma replace_all_crlf_set:
  "set (rx_replace_all no_flags (chars [CR, LF]) [LF] (p, s)) \<subseteq> insert LF (set s)"
proof (induction s arbitrary: p rule: length_induct)
  case (1 s)
  show ?case
  proof (cases s)
    case Nil
    then show ?thesis by (simp add: crlf_match del: chars.simps)
  next
    case (Cons x xs)
    show ?thesis
    proof (cases "prefix [CR, LF] (x # xs)")
      case True
      then obtain ys where ys: "xs = LF # ys" and x: "x = CR" by (cases xs) auto
      have "set (rx_replace_all no_flags (chars [CR, LF]) [LF] (Some LF, ys)) \<subseteq> insert LF (set ys)"
        using 1 [rule_format, of ys "Some LF"] Cons ys by simp
      with True Cons ys show ?thesis by (auto simp: crlf_match simp del: chars.simps)
    next
      case False
      have "set (rx_replace_all no_flags (chars [CR, LF]) [LF] (Some x, xs)) \<subseteq> insert LF (set xs)"
        using 1 [rule_format, of xs "Some x"] Cons by simp
      with False Cons show ?thesis by (auto simp: crlf_match simp del: chars.simps)
    qed
  qed
qed

lemma fixText_clean:
  assumes "0x005F \<notin> set s" and "0x002B \<notin> set s" and "\<not> sublist [CR, LF] s"
  shows "fixText s = s"
proof -
  from assms(1) have a: "filter (\<lambda>x. x \<noteq> 0x005F) s = s" by (auto simp: filter_id_conv)
  from assms(2) have b: "filter (\<lambda>x. x \<noteq> 0x002B) s = s" by (auto simp: filter_id_conv)
  show ?thesis
    using assms(3)
    by (simp add: fixText_def replace_all_def replace_all_char no_flags_def a b
        replace_all_crlf_id [unfolded no_flags_def] del: chars.simps)
qed

lemma fixText_no_marks: "0x005F \<notin> set (fixText s) \<and> 0x002B \<notin> set (fixText s)"
proof -
  have "set (fixText s) \<subseteq> insert LF (set (filter (\<lambda>x. x \<noteq> 0x002B) (filter (\<lambda>x. x \<noteq> 0x005F) s)))"
    using replace_all_crlf_set [of None "filter (\<lambda>x. x \<noteq> 0x002B) (filter (\<lambda>x. x \<noteq> 0x005F) s)"]
    by (simp add: fixText_def replace_all_def replace_all_char no_flags_def del: chars.simps)
  then show ?thesis by auto
qed

lemma strip_clean:
  assumes "exec flag_i rx_header s = None" and "exec flag_i rx_footer s = None"
    and "\<not> sublist [CR, LF] s" and "trim s = s"
  shows "stripGutenbergBoilerplate s = s"
  using assms produced_by_needs_crlf [OF assms(3)]
  by (simp add: stripGutenbergBoilerplate_def replace_def Let_def)

text \<open>
  C9, as the code has it. What the cleaning stage returns holds no underscore and no plus
  sign. It returns a text unchanged when the text has no white space at either end, no
  underscore, no plus sign and no carriage return followed by a line feed, and neither
  the header pattern nor the footer pattern matches in it. The result of one pass need
  not be such a text, so a second pass can change it.
\<close>

theorem clean_text_is_kept:
  "0x005F \<notin> set (fixText (stripGutenbergBoilerplate text)) \<and>
   0x002B \<notin> set (fixText (stripGutenbergBoilerplate text)) \<and>
   (trim text = text \<and> 0x005F \<notin> set text \<and> 0x002B \<notin> set text \<and> \<not> sublist [CR, LF] text \<and>
    exec flag_i rx_header text = None \<and> exec flag_i rx_footer text = None \<longrightarrow>
      fixText (stripGutenbergBoilerplate text) = text)"
  using fixText_no_marks [of "stripGutenbergBoilerplate text"] strip_clean [of "text"]
    fixText_clean [of "text"]
  by auto

text \<open>
  White space is trimmed before the underscores are taken out: the first pass turns
  \<open>_ a\<close> into \<open> a\<close>, and a second pass turns that into \<open>a\<close>.
\<close>

theorem cleaning_twice_differs:
  "fixText (stripGutenbergBoilerplate (js ''_ a'')) = js '' a'' \<and>
   fixText (stripGutenbergBoilerplate (js '' a'')) = js ''a''"
  by code_simp

theorem clean_text_is_kept_witness:
  "fixText (stripGutenbergBoilerplate (js ''*START OF THE PROJECT GUTENBERG EBOOK*Body_ text+'')) = js ''Body text'' \<and>
   fixText (stripGutenbergBoilerplate (js ''Body text'')) = js ''Body text''"
proof -
  have a: "fixText (stripGutenbergBoilerplate (js ''*START OF THE PROJECT GUTENBERG EBOOK*Body_ text+'')) = js ''Body text''"
    by code_simp
  have b: "trim (js ''Body text'') = js ''Body text''"
    by code_simp
  have c: "0x005F \<notin> set (js ''Body text'') \<and> 0x002B \<notin> set (js ''Body text'')"
    by code_simp
  have d: "\<not> sublist [CR, LF] (js ''Body text'')"
    by code_simp
  have e: "exec flag_i rx_header (js ''Body text'') = None"
    by code_simp
  have f: "exec flag_i rx_footer (js ''Body text'') = None"
    by code_simp
  from clean_text_is_kept [of "js ''Body text''"] a b c d e f show ?thesis by blast
qed

end
